theory Spec2Isabelle
  imports Complex_Main "HOL-Library.Sublist"
begin

section \<open>Data model (models.py)\<close>

text \<open>
  Python strings are modelled as \<^typ>\<open>string\<close>; a character stands for a code point
  in the range 0..255.  Optional fields are \<^typ>\<open>'a option\<close>, with \<open>None\<close> for
  Python's \<open>None\<close>; floats are \<^typ>\<open>real\<close>.
\<close>

record ProjectInfo =
  service_provided :: "string option"
  project_size :: "string option"
  start_date :: "string option"
  end_date :: "string option"
  score :: "real option"
  score_quality :: "real option"
  score_schedule :: "real option"
  score_cost :: "real option"
  score_willing_to_refer :: "real option"

record ReviewerInfo =
  name :: "string option"
  job_title :: "string option"
  company :: "string option"
  industry :: "string option"
  location :: "string option"
  company_size :: "string option"
  project :: "ProjectInfo option"

record CompetitorInfo =
  name :: "string option"
  locations :: "string list"

record ScrapedData =
  category :: string
  subcategory :: "string option"
  competitor :: "CompetitorInfo option"
  reviewers :: "ReviewerInfo list"
  scraped_at :: "string option"
  source_url :: "string option"
  source_url_review :: "string option"

text \<open>\<open>ProjectInfo()\<close> and \<open>ReviewerInfo()\<close> with their defaults
  (\<open>__post_init__\<close> replaces a missing project by an empty one).\<close>

definition ProjectInfo_default :: ProjectInfo where
  "ProjectInfo_default =
     \<lparr>service_provided = None, project_size = None, start_date = None, end_date = None,
      score = None, score_quality = None, score_schedule = None, score_cost = None,
      score_willing_to_refer = None\<rparr>"

definition ReviewerInfo_default :: ReviewerInfo where
  "ReviewerInfo_default =
     \<lparr>ReviewerInfo.name = None, job_title = None, company = None, industry = None,
      location = None, company_size = None, project = Some ProjectInfo_default\<rparr>"

subsection \<open>Truthiness\<close>

text \<open>Python's \<open>if x\<close> on an optional string: \<open>None\<close> and \<open>""\<close> are false.
  On an optional float: \<open>None\<close> and \<open>0.0\<close> are false.\<close>

fun truthy_str :: "string option \<Rightarrow> bool" where
  "truthy_str None = False"
| "truthy_str (Some s) = (s \<noteq> [])"

fun truthy_num :: "real option \<Rightarrow> bool" where
  "truthy_num None = False"
| "truthy_num (Some x) = (x \<noteq> 0)"

text \<open>\<open>x or ""\<close> on an optional string.\<close>

fun or_empty :: "string option \<Rightarrow> string" where
  "or_empty None = []"
| "or_empty (Some s) = s"

subsection \<open>Exceptions\<close>

text \<open>The exceptions that the modelled code can meet.  A function that can raise returns
  a value of a sum type, with \<open>Inl\<close> for the exception.\<close>

datatype py_error = ValueError | IndexError | TypeError

section \<open>Flattening a record into rows (ScrapedData.to_flat_dict_list)\<close>
















section \<open>Strings\<close>

text \<open>\<open>str.isspace\<close> on the code points 0..255: the ASCII white space, the four
  separators 0x1C..0x1F, NEL (0x85) and the no-break space (0xA0).  The same class is
  used by \<open>str.strip\<close> and by \<open>\s\<close> in a regular expression.\<close>

definition is_space :: "char \<Rightarrow> bool" where
  "is_space c \<longleftrightarrow>
     c \<in> set [CHR 0x09, CHR 0x0A, CHR 0x0B, CHR 0x0C, CHR 0x0D, CHR 0x1C, CHR 0x1D,
              CHR 0x1E, CHR 0x1F, CHR 0x20, CHR 0x85, CHR 0xA0]"

text \<open>\<open>str.lower\<close> on one code point below 256: A..Z and the Latin-1 capitals
  0xC0..0xDE (without the multiplication sign 0xD7) move up by 32.\<close>

definition lower_char :: "char \<Rightarrow> char" where
  "lower_char c =
     (let n = (of_char c :: nat)
      in if (65 \<le> n \<and> n \<le> 90) \<or> (192 \<le> n \<and> n \<le> 222 \<and> n \<noteq> 215)
         then char_of (n + 32) else c)"

definition lower :: "string \<Rightarrow> string" where
  "lower s = map lower_char s"

definition strip :: "string \<Rightarrow> string" where
  "strip s = rev (dropWhile is_space (rev (dropWhile is_space s)))"

section \<open>Deduplication (ClutchScraper._deduplicate_companies)\<close>

text \<open>\<open>record.competitor.name if record.competitor else None\<close>.\<close>

definition company_name :: "ScrapedData \<Rightarrow> string option" where
  "company_name record =
     (case competitor record of None \<Rightarrow> None | Some c \<Rightarrow> CompetitorInfo.name c)"

text \<open>The key under which a record is grouped: none when the name is missing or
  empty (the loop continues), else \<open>company_name.lower().strip()\<close>.\<close>

definition normalized_name :: "ScrapedData \<Rightarrow> string option" where
  "normalized_name record =
     (if \<not> truthy_str (company_name record) then None
      else Some (strip (lower (or_empty (company_name record)))))"

text \<open>The dict \<open>company_groups\<close>, as an association list in insertion order.\<close>

type_synonym company_groups = "(string \<times> ScrapedData list) list"

text \<open>One iteration of the grouping loop.\<close>

definition group_step :: "company_groups \<Rightarrow> ScrapedData \<Rightarrow> company_groups" where
  "group_step groups record =
     (case normalized_name record of
        None \<Rightarrow> groups
      | Some k \<Rightarrow>
          (let groups1 = (if k \<notin> set (map fst groups) then groups @ [(k, [])] else groups)
           in map (\<lambda>(k', records). if k' = k then (k', records @ [record]) else (k', records))
                groups1))"

definition build_groups :: "ScrapedData list \<Rightarrow> company_groups" where
  "build_groups data = foldl group_step [] data"

text \<open>\<open>max(records, key=f)\<close>: the first element with the greatest key; a
  \<open>ValueError\<close> on the empty list.\<close>

fun max_from :: "('a \<Rightarrow> nat) \<Rightarrow> 'a \<Rightarrow> 'a list \<Rightarrow> 'a" where
  "max_from f best [] = best"
| "max_from f best (x # xs) = max_from f (if f best < f x then x else best) xs"

fun py_max :: "('a \<Rightarrow> nat) \<Rightarrow> 'a list \<Rightarrow> py_error + 'a" where
  "py_max f [] = Inl ValueError"
| "py_max f (x # xs) = Inr (max_from f x xs)"

text \<open>\<open>len(r.reviewers) if r.reviewers else 0\<close>.\<close>

definition reviewer_count :: "ScrapedData \<Rightarrow> nat" where
  "reviewer_count r = (if reviewers r \<noteq> [] then length (reviewers r) else 0)"

type_synonym signature = "string \<times> string \<times> string"

definition signature :: "ReviewerInfo \<Rightarrow> signature" where
  "signature reviewer =
     (or_empty (ReviewerInfo.name reviewer), or_empty (company reviewer),
      or_empty (job_title reviewer))"

text \<open>The inner loop over the reviewers of one record; the state is the pair of
  \<open>reviewer_signatures\<close> and \<open>all_reviewers\<close>.\<close>

fun scan_reviewers ::
  "ReviewerInfo list \<Rightarrow> signature set \<times> ReviewerInfo list
     \<Rightarrow> signature set \<times> ReviewerInfo list" where
  "scan_reviewers [] st = st"
| "scan_reviewers (reviewer # rest) (seen, all_reviewers) =
     (if signature reviewer \<notin> seen
      then scan_reviewers rest (insert (signature reviewer) seen, all_reviewers @ [reviewer])
      else scan_reviewers rest (seen, all_reviewers))"

text \<open>The outer loop over the records of one group.\<close>

fun scan_records ::
  "ScrapedData list \<Rightarrow> signature set \<times> ReviewerInfo list
     \<Rightarrow> signature set \<times> ReviewerInfo list" where
  "scan_records [] st = st"
| "scan_records (record # rest) st =
     scan_records rest (if reviewers record \<noteq> [] then scan_reviewers (reviewers record) st else st)"

definition merged_reviewers :: "ScrapedData list \<Rightarrow> ReviewerInfo list" where
  "merged_reviewers records = snd (scan_records records ({}, []))"

text \<open>The body of the loop over the groups: what is appended to \<open>deduplicated\<close>.\<close>

definition merge_group :: "ScrapedData list \<Rightarrow> py_error + ScrapedData" where
  "merge_group records =
     (if length records = 1 then Inr (records ! 0)
      else case py_max reviewer_count records of
             Inl e \<Rightarrow> Inl e
           | Inr best_record \<Rightarrow> Inr (best_record\<lparr>reviewers := merged_reviewers records\<rparr>))"

fun dedup_loop :: "company_groups \<Rightarrow> ScrapedData list \<Rightarrow> py_error + ScrapedData list" where
  "dedup_loop [] deduplicated = Inr deduplicated"
| "dedup_loop ((k, records) # groups) deduplicated =
     (case merge_group records of
        Inl e \<Rightarrow> Inl e
      | Inr r \<Rightarrow> dedup_loop groups (deduplicated @ [r]))"

definition deduplicate_companies :: "ScrapedData list \<Rightarrow> py_error + ScrapedData list" where
  "deduplicate_companies data =
     (if data = [] then Inr data else dedup_loop (build_groups data) [])"

subsection \<open>Specification-level notions\<close>

text \<open>The elements of a list in the order of their first appearance, each once.\<close>

definition first_appearances :: "'a list \<Rightarrow> 'a list" where
  "first_appearances xs = rev (remdups (rev xs))"


text \<open>The normalized names of the named records of a list, in input order.\<close>

definition name_keys :: "ScrapedData list \<Rightarrow> string list" where
  "name_keys data = List.map_filter normalized_name data"

text \<open>The records of a list grouped under one key, in input order.\<close>

definition group_of :: "string \<Rightarrow> ScrapedData list \<Rightarrow> ScrapedData list" where
  "group_of k data = filter (\<lambda>r. normalized_name r = Some k) data"

text \<open>What the loop body appends for a non-empty group, as a plain value.\<close>

definition merged_record :: "ScrapedData list \<Rightarrow> ScrapedData" where
  "merged_record records =
     (if length records = 1 then records ! 0
      else (max_from reviewer_count (hd records) (tl records))\<lparr>reviewers := merged_reviewers records\<rparr>)"

section \<open>Retry wrapper (utils.retry)\<close>

text \<open>The wrapped function works on a world of type \<open>'s\<close>: a call either raises an
  exception (\<open>Inl\<close>) or returns a value (\<open>Inr\<close>), and leaves a new world.  The calls
  of \<open>time.sleep\<close> are logged in a list.\<close>

type_synonym ('s, 'e, 'a) func = "'s \<Rightarrow> ('e + 'a) \<times> 's"

datatype ('e, 'a) outcome = Return 'a | ReturnNone | Raise 'e | RaiseValueError

text \<open>The loop \<open>for attempt in range(max_attempts)\<close>, with the number of iterations
  left as first argument.  \<open>time.sleep\<close> raises a \<open>ValueError\<close> on a negative
  length.\<close>

fun wrapper_loop ::
  "nat \<Rightarrow> ('s, 'e, 'a) func \<Rightarrow> int \<Rightarrow> real \<Rightarrow> nat \<Rightarrow> 's \<Rightarrow> real list
     \<Rightarrow> ('e, 'a) outcome \<times> 's \<times> real list" where
  "wrapper_loop 0 func max_attempts delay attempt s sleeps = (ReturnNone, s, sleeps)"
| "wrapper_loop (Suc n) func max_attempts delay attempt s sleeps =
     (case func s of
        (Inr v, s') \<Rightarrow> (Return v, s', sleeps)
      | (Inl e, s') \<Rightarrow>
          if int attempt = max_attempts - 1 then (Raise e, s', sleeps)
          else if delay * real (attempt + 1) < 0 then (RaiseValueError, s', sleeps)
          else wrapper_loop n func max_attempts delay (attempt + 1) s'
                 (sleeps @ [delay * real (attempt + 1)]))"

definition retry ::
  "int \<Rightarrow> real \<Rightarrow> ('s, 'e, 'a) func \<Rightarrow> 's \<Rightarrow> ('e, 'a) outcome \<times> 's \<times> real list" where
  "retry max_attempts delay func s = wrapper_loop (nat max_attempts) func max_attempts delay 0 s []"

text \<open>The world after \<open>i\<close> calls of the function, and the result of the call number
  \<open>i\<close> (counted from 0).\<close>

fun after_calls :: "('s, 'e, 'a) func \<Rightarrow> nat \<Rightarrow> 's \<Rightarrow> 's" where
  "after_calls func 0 s = s"
| "after_calls func (Suc i) s = after_calls func i (snd (func s))"

definition call_result :: "('s, 'e, 'a) func \<Rightarrow> 's \<Rightarrow> nat \<Rightarrow> 'e + 'a" where
  "call_result func s i = fst (func (after_calls func i s))"

text \<open>The backoff sleeps after the first \<open>k\<close> failures.\<close>

definition backoff_sleeps :: "real \<Rightarrow> nat \<Rightarrow> real list" where
  "backoff_sleeps delay k = map (\<lambda>i. delay * real (i + 1)) [0..<k]"

section \<open>Review extraction (ClutchScraper._extract_single_clutch_review, _extract_reviews)\<close>

record ClutchScraper =
  max_pages_per_category :: int
  max_companies_per_page :: int
  max_reviews_per_company :: int

text \<open>A page element (a BeautifulSoup \<open>Tag\<close>) is a value of a type \<open>'t\<close>.  What
  \<open>_extract_single_clutch_review\<close> reads from the four elements is given by four
  readers, one for each block of the function:
  \<^item> \<open>read_data\<close>: the block \<open>if data_elem\<close>, which sets the service, the dates and
    the size of the project;
  \<^item> \<open>read_content\<close>: the block \<open>if content_elem\<close>, which sets the score;
  \<^item> \<open>read_rating\<close>: the block \<open>if rating_elem\<close>, which sets the four metrics inside
    a handler of its own, so that it always yields a project;
  \<^item> \<open>read_reviewer\<close>: the block \<open>if reviewer_elem\<close>, that is the text of the element
    and \<open>_parse_reviewer_info\<close>.
  A reader that raises yields \<open>Inl\<close>.\<close>

record ('t, 'x) review_readers =
  read_data :: "'t \<Rightarrow> ProjectInfo \<Rightarrow> 'x + ProjectInfo"
  read_content :: "'t \<Rightarrow> ProjectInfo \<Rightarrow> 'x + ProjectInfo"
  read_rating :: "'t \<Rightarrow> ProjectInfo \<Rightarrow> ProjectInfo"
  read_reviewer :: "'t \<Rightarrow> ReviewerInfo \<Rightarrow> 'x + ReviewerInfo"

text \<open>The reviewer and the project as they are when \<open>reviewer.project = project\<close> is
  reached, starting from \<open>ReviewerInfo()\<close> and \<open>ProjectInfo()\<close>.\<close>

definition review_fields ::
  "('t, 'x) review_readers \<Rightarrow> 't \<Rightarrow> 't \<Rightarrow> 't \<Rightarrow> 't option \<Rightarrow> 'x + ReviewerInfo \<times> ProjectInfo" where
  "review_fields readers data_elem content_elem reviewer_elem rating_elem =
     (case read_data readers data_elem ProjectInfo_default of
        Inl e \<Rightarrow> Inl e
      | Inr p1 \<Rightarrow>
          (case read_content readers content_elem p1 of
             Inl e \<Rightarrow> Inl e
           | Inr p2 \<Rightarrow>
               (let p3 = (case rating_elem of
                            None \<Rightarrow> p2
                          | Some rating \<Rightarrow> read_rating readers rating p2)
                in case read_reviewer readers reviewer_elem ReviewerInfo_default of
                     Inl e \<Rightarrow> Inl e
                   | Inr reviewer \<Rightarrow> Inr (reviewer, p3))))"

text \<open>The assignment \<open>reviewer.project = project\<close>, the final test and the handler
  \<open>except Exception: return None\<close>.\<close>

definition extract_single_clutch_review ::
  "('t, 'x) review_readers \<Rightarrow> 't \<Rightarrow> 't \<Rightarrow> 't \<Rightarrow> 't option \<Rightarrow> ReviewerInfo option" where
  "extract_single_clutch_review readers data_elem content_elem reviewer_elem rating_elem =
     (case review_fields readers data_elem content_elem reviewer_elem rating_elem of
        Inl e \<Rightarrow> None
      | Inr (reviewer0, proj) \<Rightarrow>
          (let reviewer = reviewer0\<lparr>project := Some proj\<rparr>
           in if truthy_str (ReviewerInfo.name reviewer) \<or> truthy_str (company reviewer)
                 \<or> truthy_str (service_provided proj) \<or> truthy_num (score proj)
              then Some reviewer else None))"

text \<open>The body of the loop \<open>for i in range(num_reviews)\<close>; \<open>found\<close> is the list \<open>reviewers\<close>
  built so far.  The index is below the length of the first three lists.\<close>

definition review_step ::
  "('t, 'x) review_readers \<Rightarrow> 't list \<Rightarrow> 't list \<Rightarrow> 't list \<Rightarrow> 't list
     \<Rightarrow> ReviewerInfo list \<Rightarrow> nat \<Rightarrow> ReviewerInfo list" where
  "review_step readers review_data_elements review_content_elements
       review_reviewer_elements review_rating_elements found i =
     (let rating_elem =
            (if i < length review_rating_elements then Some (review_rating_elements ! i) else None)
      in case extract_single_clutch_review readers (review_data_elements ! i)
                (review_content_elements ! i) (review_reviewer_elements ! i) rating_elem of
           Some reviewer \<Rightarrow> found @ [reviewer]
         | None \<Rightarrow> found)"

text \<open>\<open>_extract_reviews\<close>, from the four lists that \<open>soup.select\<close> returns.\<close>

definition extract_reviews ::
  "ClutchScraper \<Rightarrow> ('t, 'x) review_readers \<Rightarrow> 't list \<Rightarrow> 't list \<Rightarrow> 't list \<Rightarrow> 't list
     \<Rightarrow> ReviewerInfo list" where
  "extract_reviews self readers review_data_elements review_content_elements
       review_reviewer_elements review_rating_elements =
     (let num_reviews = min (int (length review_data_elements))
                          (min (int (length review_content_elements))
                               (int (length review_reviewer_elements)));
          num_reviews = min num_reviews (max_reviews_per_company self)
      in foldl (review_step readers review_data_elements review_content_elements
                  review_reviewer_elements review_rating_elements) [] [0..<nat num_reviews])"

subsection \<open>Specification-level notions\<close>

text \<open>A text field is populated when it is neither \<open>None\<close> nor the empty string; a
  number is populated when it is not \<open>None\<close>.\<close>

definition populated :: "string option \<Rightarrow> bool" where
  "populated x \<longleftrightarrow> x \<noteq> None \<and> x \<noteq> Some []"

definition reviewer_present :: "ReviewerInfo \<Rightarrow> bool" where
  "reviewer_present r \<longleftrightarrow>
     populated (ReviewerInfo.name r) \<or> populated (company r)
     \<or> (case project r of
           None \<Rightarrow> False
         | Some p \<Rightarrow> populated (service_provided p) \<or> score p \<noteq> None)"

section \<open>Regular expressions (the part of Python's \<open>re\<close> that the patterns use)\<close>

text \<open>A pattern is a tree; \<open>Cls p\<close> matches one character of the class \<open>p\<close>,
  \<open>Star\<close> is the greedy \<open>*\<close>, \<open>Grp k\<close> is the capturing group number \<open>k\<close>.\<close>

datatype rx = Epsilon | Cls "char \<Rightarrow> bool" | Cat rx rx | Alt rx rx | Star rx | Grp nat rx

type_synonym caps = "(nat \<times> string) list"

text \<open>All the ways in which a pattern matches a prefix of \<open>s\<close>, in the order in which
  the backtracking matcher tries them: each way is the rest of the text behind the match
  and the groups captured so far (the latest capture of a group first).\<close>

function ms :: "rx \<Rightarrow> string \<Rightarrow> caps \<Rightarrow> (string \<times> caps) list" where
  "ms Epsilon s g = [(s, g)]"
| "ms (Cls p) s g = (case s of [] \<Rightarrow> [] | c # cs \<Rightarrow> if p c then [(cs, g)] else [])"
| "ms (Cat a b) s g = concat (map (\<lambda>w. ms b (fst w) (snd w)) (ms a s g))"
| "ms (Alt a b) s g = ms a s g @ ms b s g"
| "ms (Star a) s g =
     concat (map (\<lambda>w. if length (fst w) < length s then ms (Star a) (fst w) (snd w) else [])
               (ms a s g))
     @ [(s, g)]"
| "ms (Grp k a) s g =
     map (\<lambda>w. (fst w, (k, take (length s - length (fst w)) s) # snd w)) (ms a s g)"
  by pat_completeness auto
termination
  by (relation "measures [\<lambda>(r, s, g). size r, \<lambda>(r, s, g). length s]") auto

declare ms.simps(5) [simp del]

text \<open>The number of capturing groups of a pattern: the length of \<open>match.groups()\<close>.\<close>

fun ngroups :: "rx \<Rightarrow> nat" where
  "ngroups Epsilon = 0"
| "ngroups (Cls p) = 0"
| "ngroups (Cat a b) = ngroups a + ngroups b"
| "ngroups (Alt a b) = ngroups a + ngroups b"
| "ngroups (Star a) = ngroups a"
| "ngroups (Grp k a) = 1 + ngroups a"

text \<open>A match object: the matched text, the captures, and the number of groups of the
  pattern.\<close>

datatype rmatch = Match string caps nat

text \<open>\<open>re.search(pattern, text)\<close>: the first way of matching at the leftmost position
  that has one; positions run up to the end of the text.\<close>

fun re_search :: "rx \<Rightarrow> string \<Rightarrow> rmatch option" where
  "re_search r s =
     (case ms r s [] of
        w # ws \<Rightarrow> Some (Match (take (length s - length (fst w)) s) (snd w) (ngroups r))
      | [] \<Rightarrow> (case s of [] \<Rightarrow> None | c # cs \<Rightarrow> re_search r cs))"

declare re_search.simps [simp del]

text \<open>\<open>match.group(k)\<close>: an \<open>IndexError\<close> when the pattern has no group \<open>k\<close>;
  \<open>None\<close> when the group took no part in the match.\<close>

fun match_group :: "rmatch \<Rightarrow> nat \<Rightarrow> py_error + string option" where
  "match_group (Match whole g n) k =
     (if k = 0 then Inr (Some whole)
      else if n < k then Inl IndexError
      else Inr (map_of g k))"

fun match_groups_len :: "rmatch \<Rightarrow> nat" where
  "match_groups_len (Match whole g n) = n"

text \<open>A value inside an f-string.\<close>

fun fmt :: "string option \<Rightarrow> string" where
  "fmt None = ''None''"
| "fmt (Some s) = s"

subsection \<open>Pattern notation\<close>

definition lit :: "char \<Rightarrow> rx" where
  "lit c = Cls (\<lambda>x. x = c)"

definition seq :: "rx list \<Rightarrow> rx" where
  "seq rs = foldr Cat rs Epsilon"

definition str :: "string \<Rightarrow> rx" where
  "str s = seq (map lit s)"

definition many1 :: "rx \<Rightarrow> rx" where
  "many1 r = Cat r (Star r)"

definition opt :: "rx \<Rightarrow> rx" where
  "opt r = Alt r Epsilon"

text \<open>\<open>\d\<close>, \<open>\s\<close> and \<open>[A-Za-z]\<close> on the code points 0..255.\<close>

definition is_digit :: "char \<Rightarrow> bool" where
  "is_digit c \<longleftrightarrow> c \<in> set ''0123456789''"

definition is_alpha :: "char \<Rightarrow> bool" where
  "is_alpha c \<longleftrightarrow> c \<in> set ''ABCDEFGHIJKLMNOPQRSTUVWXYZabcdefghijklmnopqrstuvwxyz''"

definition digit :: rx where "digit = Cls is_digit"
definition space :: rx where "space = Cls is_space"

section \<open>Text and field normalizer (utils.DataCleaner)\<close>

text \<open>\<open>re.sub(r'\s+', ' ', s)\<close>: every maximal run of white space becomes one
  space.\<close>

function sub_spaces :: "string \<Rightarrow> string" where
  "sub_spaces [] = []"
| "sub_spaces (c # cs) =
     (if is_space c then CHR '' '' # sub_spaces (dropWhile is_space cs) else c # sub_spaces cs)"
  by pat_completeness auto
termination
  by (relation "measure length") (auto simp: length_dropWhile_le less_Suc_eq_le)

definition clean_text :: "string option \<Rightarrow> string option" where
  "clean_text text =
     (if \<not> truthy_str text then None
      else let cleaned = sub_spaces (strip (or_empty text))
           in if cleaned = [] then None else Some cleaned)"

text \<open>\<open>float\<close> is a parameter: on a string it returns a number, or it raises a
  \<open>ValueError\<close>, which is the value \<open>None\<close> here; on \<open>None\<close> it raises a
  \<open>TypeError\<close>.  The pattern is \<open>(\d+\.?\d*)\<close>.\<close>

definition number_pattern :: rx where
  "number_pattern = Grp 1 (seq [many1 digit, opt (lit CHR ''.''), Star digit])"

definition extract_number_from_text ::
  "(string \<Rightarrow> real option) \<Rightarrow> string option \<Rightarrow> py_error + real option" where
  "extract_number_from_text float text =
     (if \<not> truthy_str text then Inr None
      else case re_search number_pattern (or_empty text) of
             Some m \<Rightarrow>
               (case match_group m 1 of
                  Inl e \<Rightarrow> Inl e
                | Inr None \<Rightarrow> Inl TypeError
                | Inr (Some g1) \<Rightarrow>
                    (case float g1 of
                       Some x \<Rightarrow> Inr (Some x)
                     | None \<Rightarrow> Inr None))
           | None \<Rightarrow> Inr None)"

text \<open>The four patterns of \<open>parse_employee_count\<close>, in the order of the list.\<close>

definition employees_range :: rx where
  "employees_range =
     seq [Grp 1 (many1 digit), Star space, lit CHR ''-'', Star space, Grp 2 (many1 digit),
          Star space, str ''employee'', opt (lit CHR ''s'')]"

definition employees_plus :: rx where
  "employees_plus =
     seq [Grp 1 (many1 digit), opt (lit CHR ''+''), Star space, str ''employee'',
          opt (lit CHR ''s'')]"

definition people_range :: rx where
  "people_range =
     seq [Grp 1 (many1 digit), Star space, lit CHR ''-'', Star space, Grp 2 (many1 digit),
          Star space, str ''people'']"

definition people_plus :: rx where
  "people_plus = seq [Grp 1 (many1 digit), opt (lit CHR ''+''), Star space, str ''people'']"

definition employee_patterns :: "rx list" where
  "employee_patterns = [employees_range, employees_plus, people_range, people_plus]"

text \<open>The loop \<open>for pattern in patterns\<close>, and the fallback behind it.\<close>

fun employee_loop :: "rx list \<Rightarrow> string \<Rightarrow> py_error + string option" where
  "employee_loop [] text = Inr (clean_text (Some text))"
| "employee_loop (pattern # patterns) text =
     (case re_search pattern text of
        Some m \<Rightarrow>
          (if match_groups_len m = 2
           then (case match_group m 1 of
                   Inl e \<Rightarrow> Inl e
                 | Inr g1 \<Rightarrow>
                     (case match_group m 2 of
                        Inl e \<Rightarrow> Inl e
                      | Inr g2 \<Rightarrow> Inr (Some (fmt g1 @ ''-'' @ fmt g2 @ '' employees''))))
           else (case match_group m 1 of
                   Inl e \<Rightarrow> Inl e
                 | Inr g1 \<Rightarrow> Inr (Some (fmt g1 @ ''+ employees''))))
      | None \<Rightarrow> employee_loop patterns text)"

definition parse_employee_count :: "string option \<Rightarrow> py_error + string option" where
  "parse_employee_count text =
     (if \<not> truthy_str text then Inr None
      else employee_loop employee_patterns (strip (lower (or_empty text))))"

text \<open>\<open>[A-Za-z]+ \d{4}\<close>, and the class of dashes between two dates.  Of the three
  dashes of the class only the hyphen is a code point below 256.\<close>

definition month_year :: rx where
  "month_year = seq [many1 (Cls is_alpha), lit CHR '' '', digit, digit, digit, digit]"

definition is_dash :: "char \<Rightarrow> bool" where
  "is_dash c \<longleftrightarrow> c = CHR ''-''"

definition date_pattern :: rx where
  "date_pattern =
     seq [Grp 1 month_year, Star space, Cls is_dash, Star space, Grp 2 month_year]"

definition single_date_pattern :: rx where
  "single_date_pattern = Grp 1 month_year"

definition parse_date_range ::
  "string option \<Rightarrow> py_error + string option \<times> string option" where
  "parse_date_range text =
     (if \<not> truthy_str text then Inr (None, None)
      else case re_search date_pattern (or_empty text) of
             Some m \<Rightarrow>
               (case match_group m 1 of
                  Inl e \<Rightarrow> Inl e
                | Inr g1 \<Rightarrow>
                    (case match_group m 2 of
                       Inl e \<Rightarrow> Inl e
                     | Inr g2 \<Rightarrow> Inr (g1, g2)))
           | None \<Rightarrow>
               (case re_search single_date_pattern (or_empty text) of
                  Some m \<Rightarrow>
                    (case match_group m 1 of
                       Inl e \<Rightarrow> Inl e
                     | Inr g1 \<Rightarrow> Inr (g1, None))
                | None \<Rightarrow> Inr (None, None)))"

text \<open>\<open>\$[\d,]+(?:\s*-\s*\$[\d,]+)?\<close>.\<close>

definition money :: rx where
  "money = seq [lit CHR ''$'', many1 (Cls (\<lambda>c. is_digit c \<or> c = CHR '',''))]"

definition money_pattern :: rx where
  "money_pattern = seq [money, opt (seq [Star space, lit CHR ''-'', Star space, money])]"

definition parse_project_size :: "string option \<Rightarrow> py_error + string option" where
  "parse_project_size text =
     (if \<not> truthy_str text then Inr None
      else let text1 = strip (or_empty text)
           in case re_search money_pattern text1 of
                Some m \<Rightarrow> match_group m 0
              | None \<Rightarrow> Inr (clean_text (Some text1)))"

subsection \<open>Notions of the statements about the normalizer\<close>





section \<open>Basic info of a listing element (ClutchScraper._extract_company_basic_info)\<close>


























section \<open>Sample data\<close>

definition mk_reviewer :: "string \<Rightarrow> string \<Rightarrow> string \<Rightarrow> ReviewerInfo" where
  "mk_reviewer n c j =
     ReviewerInfo_default\<lparr>ReviewerInfo.name := Some n, company := Some c, job_title := Some j\<rparr>"

definition mk_record :: "string option \<Rightarrow> ReviewerInfo list \<Rightarrow> ScrapedData" where
  "mk_record n rs =
     \<lparr>category = ''Development'', subcategory = Some ''Web Developers'',
      competitor = Some \<lparr>CompetitorInfo.name = n, locations = []\<rparr>, reviewers = rs,
      scraped_at = None, source_url = None, source_url_review = None\<rparr>"

definition ann :: ReviewerInfo where "ann = mk_reviewer ''Ann'' ''Foo'' ''CTO''"
definition bob :: ReviewerInfo where "bob = mk_reviewer ''Bob'' ''Bar'' ''CEO''"
definition ann_later :: ReviewerInfo where "ann_later = ann\<lparr>industry := Some ''Retail''\<rparr>"

definition acme_one :: ScrapedData where "acme_one = mk_record (Some ''Acme Inc'') [ann]"
definition acme_two :: ScrapedData where "acme_two = mk_record (Some '' ACME INC '') [ann_later, bob]"
definition nameless :: ScrapedData where "nameless = mk_record None [bob]"

text \<open>A function that fails on its first two calls and then succeeds; the world counts the calls.\<close>

definition flaky :: "(nat, string, string) func" where
  "flaky n = (if n < 2 then Inl ''timeout'' else Inr ''page'', n + 1)"

text \<open>A function that fails on every call, raising the number of the call.\<close>

definition broken :: "(nat, nat, string) func" where
  "broken n = (Inl n, n + 1)"

text \<open>A scraper with the limits of the constructor, and readers of review fields over
  elements numbered by naturals: no element yields a project field, the reviewer element
  0 yields nothing, and any other reviewer element yields the fields of \<open>ann\<close>.\<close>

definition default_scraper :: ClutchScraper where
  "default_scraper =
     \<lparr>max_pages_per_category = 5, max_companies_per_page = 20, max_reviews_per_company = 10\<rparr>"

definition sample_readers :: "(nat, unit) review_readers" where
  "sample_readers =
     \<lparr>read_data = (\<lambda>d p. Inr p), read_content = (\<lambda>c p. Inr p), read_rating = (\<lambda>r p. p),
      read_reviewer = (\<lambda>e r. if e = 0 then Inr r else Inr ann)\<rparr>"

text \<open>A \<open>float\<close> that reads a run of digits as a whole number and rejects any other
  text.\<close>

definition digits_float :: "string \<Rightarrow> real option" where
  "digits_float s =
     (if s \<noteq> [] \<and> list_all is_digit s
      then Some (real (foldl (\<lambda>n c. 10 * n + (of_char c - 48)) 0 s))
      else None)"



section \<open>Properties of the flattening\<close>








section \<open>Properties of the deduplication\<close>

lemma first_appearances_snoc:
  "first_appearances (xs @ [x]) =
     (if x \<in> set xs then first_appearances xs else first_appearances xs @ [x])"
  by (simp add: first_appearances_def)

lemma set_first_appearances: "set (first_appearances xs) = set xs"
  by (simp add: first_appearances_def)

lemma distinct_first_appearances: "distinct (first_appearances xs)"
  by (simp add: first_appearances_def)

lemma first_appearances_distinct: "distinct xs \<Longrightarrow> first_appearances xs = xs"
  by (simp add: first_appearances_def distinct_remdups_id)

lemma name_keys_snoc:
  "name_keys (data @ [r]) =
     name_keys data @ (case normalized_name r of None \<Rightarrow> [] | Some k \<Rightarrow> [k])"
  by (simp add: name_keys_def map_filter_def split: option.split)

lemma set_name_keys: "k \<in> set (name_keys data) \<longleftrightarrow> (\<exists>r \<in> set data. normalized_name r = Some k)"
  by (force simp: name_keys_def map_filter_def)

lemma group_of_snoc:
  "group_of k (data @ [r]) = group_of k data @ (if normalized_name r = Some k then [r] else [])"
  by (simp add: group_of_def)

lemma group_of_empty_iff: "group_of k data = [] \<longleftrightarrow> k \<notin> set (name_keys data)"
  by (auto simp: group_of_def set_name_keys filter_empty_conv)

lemma build_groups_snoc: "build_groups (data @ [r]) = group_step (build_groups data) r"
  by (simp add: build_groups_def)

lemma build_groups_eq:
  "build_groups data = map (\<lambda>k. (k, group_of k data)) (first_appearances (name_keys data))"
proof (induction data rule: rev_induct)
  case Nil
  show ?case by (simp add: build_groups_def name_keys_def map_filter_def first_appearances_def)
next
  case (snoc r data)
  let ?fa = "first_appearances (name_keys data)"
  show ?case
  proof (cases "normalized_name r")
    case None
    then show ?thesis
      using snoc by (simp add: build_groups_snoc group_step_def name_keys_snoc group_of_snoc)
  next
    case (Some k)
    show ?thesis
    proof (cases "k \<in> set (name_keys data)")
      case True
      then show ?thesis
        using snoc Some
        by (auto simp: build_groups_snoc group_step_def name_keys_snoc group_of_snoc
            first_appearances_snoc set_first_appearances comp_def)
    next
      case False
      then have "group_of k data = []" by (simp add: group_of_empty_iff)
      with False show ?thesis
        using snoc Some
        by (auto simp: build_groups_snoc group_step_def name_keys_snoc group_of_snoc
            first_appearances_snoc set_first_appearances comp_def)
    qed
  qed
qed

lemma merge_group_nonempty: "records \<noteq> [] \<Longrightarrow> merge_group records = Inr (merged_record records)"
  by (cases records) (simp_all add: merge_group_def merged_record_def)

lemma dedup_loop_eq:
  "\<forall>(k, records) \<in> set groups. records \<noteq> [] \<Longrightarrow>
   dedup_loop groups out = Inr (out @ map (\<lambda>(k, records). merged_record records) groups)"
proof (induction groups arbitrary: out)
  case Nil
  then show ?case by simp
next
  case (Cons g groups)
  obtain k records where g: "g = (k, records)" by (cases g)
  with Cons.prems have "records \<noteq> []" by simp
  then show ?case using Cons g by (simp add: merge_group_nonempty)
qed

lemma deduplicate_companies_eq:
  "deduplicate_companies data =
     Inr (map (\<lambda>k. merged_record (group_of k data)) (first_appearances (name_keys data)))"
proof (cases "data = []")
  case True
  then show ?thesis
    by (simp add: deduplicate_companies_def name_keys_def map_filter_def first_appearances_def)
next
  case False
  have "\<forall>(k, records) \<in> set (build_groups data). records \<noteq> []"
    by (auto simp: build_groups_eq set_first_appearances group_of_empty_iff)
  then show ?thesis
    using False by (simp add: deduplicate_companies_def dedup_loop_eq) (simp add: build_groups_eq comp_def)
qed

lemma max_from_in: "max_from f b xs \<in> insert b (set xs)"
  by (induction xs arbitrary: b) (auto split: if_splits)

lemma max_from_hd_tl: "xs \<noteq> [] \<Longrightarrow> max_from f (hd xs) (tl xs) \<in> set xs"
  using max_from_in [of f "hd xs" "tl xs"] by (cases xs) auto

lemma normalized_name_reviewers_update [simp]:
  "normalized_name (r\<lparr>reviewers := rs\<rparr>) = normalized_name r"
  by (simp add: normalized_name_def company_name_def)

lemma normalized_name_merged_record:
  assumes "records \<noteq> []" "\<forall>r \<in> set records. normalized_name r = Some k"
  shows "normalized_name (merged_record records) = Some k"
proof (cases "length records = 1")
  case True
  then have "records ! 0 \<in> set records" by (cases records) auto
  with assms True show ?thesis by (simp add: merged_record_def)
next
  case False
  with assms max_from_hd_tl [OF assms(1), of reviewer_count] show ?thesis
    by (simp add: merged_record_def)
qed

lemma normalized_name_merged_group:
  "k \<in> set (name_keys data) \<Longrightarrow> normalized_name (merged_record (group_of k data)) = Some k"
  by (rule normalized_name_merged_record) (auto simp: group_of_empty_iff, simp add: group_of_def)

lemma map_normalized_name_dedup:
  "deduplicate_companies data = Inr out \<Longrightarrow>
   map normalized_name out = map Some (first_appearances (name_keys data))"
  by (auto simp: deduplicate_companies_eq set_first_appearances normalized_name_merged_group)

lemma filter_same_key:
  "distinct (map f xs) \<Longrightarrow> x \<in> set xs \<Longrightarrow> filter (\<lambda>y. f y = f x) xs = [x]"
proof (induction xs)
  case Nil then show ?case by simp
next
  case (Cons a xs)
  show ?case
  proof (cases "a = x")
    case True
    with Cons.prems have "f x \<notin> f ` set xs" by simp
    then have "\<forall>y \<in> set xs. f y \<noteq> f x" by (metis imageI)
    then have "filter (\<lambda>y. f y = f x) xs = []" by (simp add: filter_empty_conv)
    with True show ?thesis by simp
  next
    case False
    with Cons.prems have "x \<in> set xs" "f a \<noteq> f x" by auto
    with Cons show ?thesis by simp
  qed
qed

lemma deduplicate_fixed:
  assumes d: "distinct (map normalized_name out)"
    and n: "\<forall>r \<in> set out. normalized_name r \<noteq> None"
  shows "deduplicate_companies out = Inr out"
proof -
  have keys: "name_keys out = map (the \<circ> normalized_name) out"
    using n by (simp add: name_keys_def map_filter_def)
  have inj: "inj_on the (set (map normalized_name out))"
  proof (rule inj_onI)
    fix a b assume "a \<in> set (map normalized_name out)" "b \<in> set (map normalized_name out)" "the a = the b"
    with n show "a = b" by (cases a; cases b) auto
  qed
  have dk: "distinct (name_keys out)"
    unfolding keys using distinct_map d inj
    by (metis (no_types, lifting) list.map_comp distinct_map)
  have one: "merged_record (group_of (the (normalized_name r)) out) = r" if "r \<in> set out" for r
  proof -
    from that n obtain k where k: "normalized_name r = Some k" by auto
    then have "group_of (the (normalized_name r)) out = filter (\<lambda>y. normalized_name y = normalized_name r) out"
      by (simp add: group_of_def)
    also have "\<dots> = [r]" using d that by (rule filter_same_key)
    finally show ?thesis by (simp add: merged_record_def)
  qed
  have "first_appearances (name_keys out) = map (the \<circ> normalized_name) out"
    using first_appearances_distinct [OF dk] keys by simp
  moreover have "map (\<lambda>r. merged_record (group_of (the (normalized_name r)) out)) out = out"
    by (rule map_idI) (rule one)
  ultimately show ?thesis
    by (simp add: deduplicate_companies_eq comp_def)
qed









lemma dedup_out_cases:
  assumes "deduplicate_companies data = Inr out" "r \<in> set out"
  shows "\<exists>k \<in> set (name_keys data). normalized_name r = Some k \<and> r = merged_record (group_of k data)"
  using assms
  by (auto simp: deduplicate_companies_eq set_first_appearances normalized_name_merged_group)

lemma name_keys_filter_named:
  "name_keys (filter (\<lambda>r. truthy_str (company_name r)) data) = name_keys data"
proof -
  have "filter (\<lambda>x. normalized_name x \<noteq> None) (filter (\<lambda>r. truthy_str (company_name r)) data)
      = filter (\<lambda>x. normalized_name x \<noteq> None) data"
    unfolding filter_filter by (rule filter_cong) (auto simp: normalized_name_def)
  then show ?thesis by (simp add: name_keys_def map_filter_def)
qed

lemma group_of_filter_named:
  "group_of k (filter (\<lambda>r. truthy_str (company_name r)) data) = group_of k data"
  unfolding group_of_def filter_filter
  by (rule filter_cong) (auto simp: normalized_name_def split: if_splits)

lemma dedup_names:
  "\<exists>out. deduplicate_companies data = Inr out
     \<and> map normalized_name out = map Some (first_appearances (name_keys data))"
  using deduplicate_companies_eq map_normalized_name_dedup by blast


text \<open>Claim C4.  Deduplication is idempotent: it succeeds on every input list, and
  applied to its own output it returns that output again, the same records in the same
  order.\<close>

theorem dedup_idempotent:
  "\<exists>out. deduplicate_companies data = Inr out \<and> deduplicate_companies out = Inr out"
proof -
  from dedup_names obtain out where out: "deduplicate_companies data = Inr out"
    and names: "map normalized_name out = map Some (first_appearances (name_keys data))"
    by blast
  have "distinct (map Some (first_appearances (name_keys data)))"
    by (simp add: distinct_map distinct_first_appearances)
  then have d: "distinct (map normalized_name out)" by (simp only: names)
  have n: "\<forall>r \<in> set out. normalized_name r \<noteq> None"
  proof
    fix r assume "r \<in> set out"
    then have "normalized_name r \<in> set (map normalized_name out)" by simp
    then have "normalized_name r \<in> set (map Some (first_appearances (name_keys data)))"
      by (simp only: names)
    then show "normalized_name r \<noteq> None" by auto
  qed
  from d n have "deduplicate_companies out = Inr out" by (rule deduplicate_fixed)
  with out show ?thesis by blast
qed

text \<open>Claim C3, as stated, fails: a record whose competitor name is absent is not
  kept.  The input consisting of the single nameless record \<open>nameless\<close> is
  deduplicated to the empty list.\<close>

theorem nameless_record_counterexample:
  "company_name nameless = None \<and> deduplicate_companies [nameless] = Inr []"
  by code_simp

text \<open>Claim C3, amended.  A record whose competitor name is absent or empty is never
  merged with any other record and is left out of the output: every output record has a
  non-empty competitor name, and removing the nameless records from the input beforehand
  gives the same output.\<close>

theorem nameless_records_dropped:
  "\<exists>out. deduplicate_companies data = Inr out
     \<and> (\<forall>r \<in> set out. truthy_str (company_name r))
     \<and> deduplicate_companies (filter (\<lambda>r. truthy_str (company_name r)) data) = Inr out"
proof -
  let ?out = "map (\<lambda>k. merged_record (group_of k data)) (first_appearances (name_keys data))"
  have out: "deduplicate_companies data = Inr ?out" by (rule deduplicate_companies_eq)
  have named: "\<forall>r \<in> set ?out. truthy_str (company_name r)"
  proof
    fix r assume "r \<in> set ?out"
    with out obtain k where "normalized_name r = Some k" using dedup_out_cases by blast
    then show "truthy_str (company_name r)" by (simp add: normalized_name_def split: if_splits)
  qed
  have "deduplicate_companies (filter (\<lambda>r. truthy_str (company_name r)) data) = Inr ?out"
    by (simp add: deduplicate_companies_eq name_keys_filter_named group_of_filter_named)
  with out named show ?thesis by blast
qed

text \<open>Claim C3, amended, at a concrete input with a nameless record between two
  records of one company.\<close>

theorem nameless_records_dropped_witness:
  "deduplicate_companies [acme_one, nameless, acme_two] = Inr [acme_two\<lparr>reviewers := [ann, bob]\<rparr>]
   \<and> deduplicate_companies [acme_one, acme_two] = Inr [acme_two\<lparr>reviewers := [ann, bob]\<rparr>]
   \<and> truthy_str (company_name (acme_two\<lparr>reviewers := [ann, bob]\<rparr>))"
proof -
  have f: "filter (\<lambda>r. truthy_str (company_name r)) [acme_one, nameless, acme_two] = [acme_one, acme_two]"
    by code_simp
  have d: "deduplicate_companies [acme_one, nameless, acme_two] = Inr [acme_two\<lparr>reviewers := [ann, bob]\<rparr>]"
    by code_simp
  from nameless_records_dropped [of "[acme_one, nameless, acme_two]"] show ?thesis
    unfolding f d by simp
qed




section \<open>Properties of the retry wrapper\<close>

lemma call_result_Suc: "call_result func s (Suc i) = call_result func (snd (func s)) i"
  by (simp add: call_result_def)

lemma wrapper_loop_success:
  assumes "\<forall>i<k. isl (call_result func s i)"
    and "call_result func s k = Inr v"
    and "k < n" and "int (attempt + n) = max_attempts" and "0 \<le> delay"
  shows "wrapper_loop n func max_attempts delay attempt s sleeps =
           (Return v, after_calls func (Suc k) s,
            sleeps @ map (\<lambda>i. delay * real (attempt + i + 1)) [0..<k])"
  using assms
proof (induction k arbitrary: n attempt s sleeps)
  case 0
  then obtain n' where n: "n = Suc n'" by (cases n) auto
  from 0(2) obtain s' where "func s = (Inr v, s')"
    by (cases "func s") (auto simp: call_result_def)
  then show ?case by (simp add: n)
next
  case (Suc k)
  then obtain n' where n: "n = Suc n'" by (cases n) auto
  from Suc.prems(1) have "isl (call_result func s 0)" by blast
  then obtain e s' where f: "func s = (Inl e, s')"
    by (cases "func s") (auto simp: call_result_def isl_def)
  have a: "int attempt \<noteq> max_attempts - 1" using Suc.prems(3,4) by auto
  have d: "\<not> delay * real (attempt + 1) < 0" using Suc.prems(5) by (simp add: not_less)
  have ih: "wrapper_loop n' func max_attempts delay (attempt + 1) s' (sleeps @ [delay * real (attempt + 1)])
      = (Return v, after_calls func (Suc k) s',
         (sleeps @ [delay * real (attempt + 1)]) @ map (\<lambda>i. delay * real (attempt + 1 + i + 1)) [0..<k])"
  proof (rule Suc.IH)
    show "\<forall>i<k. isl (call_result func s' i)"
    proof (intro allI impI)
      fix i assume "i < k"
      then have "isl (call_result func s (Suc i))" using Suc.prems(1) by simp
      then show "isl (call_result func s' i)" using f by (simp add: call_result_Suc)
    qed
    show "call_result func s' k = Inr v" using Suc.prems(2) f by (simp add: call_result_Suc)
    show "k < n'" using Suc.prems(3) n by simp
    show "int (attempt + 1 + n') = max_attempts" using Suc.prems(4) n by simp
    show "0 \<le> delay" by fact
  qed
  have m: "map (\<lambda>i. delay * real (attempt + i + 1)) [0..<Suc k]
      = delay * real (attempt + 1) # map (\<lambda>i. delay * real (attempt + 1 + i + 1)) [0..<k]"
    by (simp add: upt_conv_Cons map_Suc_upt [symmetric] del: upt_Suc)
  show ?case
    unfolding n wrapper_loop.simps f using a d ih m f by simp
qed


lemma wrapper_loop_exhausted:
  assumes "\<forall>i<n. isl (call_result func s i)"
    and "0 < n" and "int (attempt + n) = max_attempts" and "0 \<le> delay"
  shows "wrapper_loop n func max_attempts delay attempt s sleeps =
           (Raise (projl (call_result func s (n - 1))), after_calls func n s,
            sleeps @ map (\<lambda>i. delay * real (attempt + i + 1)) [0..<n - 1])"
  using assms
proof (induction n arbitrary: attempt s sleeps)
  case 0
  then show ?case by simp
next
  case (Suc n)
  from Suc.prems(1) have "isl (call_result func s 0)" by blast
  then obtain e s' where f: "func s = (Inl e, s')"
    by (cases "func s") (auto simp: call_result_def isl_def)
  show ?case
  proof (cases n)
    case 0
    with Suc.prems(3) have "int attempt = max_attempts - 1" by simp
    with 0 f show ?thesis by (simp add: call_result_def)
  next
    case (Suc n')
    have a: "int attempt \<noteq> max_attempts - 1" using Suc.prems(3) Suc by auto
    have d: "\<not> delay * real (attempt + 1) < 0" using Suc.prems(4) by (simp add: not_less)
    have ih: "wrapper_loop n func max_attempts delay (attempt + 1) s' (sleeps @ [delay * real (attempt + 1)])
      = (Raise (projl (call_result func s' (n - 1))), after_calls func n s',
         (sleeps @ [delay * real (attempt + 1)]) @ map (\<lambda>i. delay * real (attempt + 1 + i + 1)) [0..<n - 1])"
    proof (rule Suc.IH)
      show "\<forall>i<n. isl (call_result func s' i)"
      proof (intro allI impI)
        fix i assume "i < n"
        then have "isl (call_result func s (Suc i))" using Suc.prems(1) by simp
        then show "isl (call_result func s' i)" using f by (simp add: call_result_Suc)
      qed
      show "0 < n" using Suc by simp
      show "int (attempt + 1 + n) = max_attempts" using Suc.prems(3) by simp
      show "0 \<le> delay" by fact
    qed
    have m: "map (\<lambda>i. delay * real (attempt + i + 1)) [0..<Suc n']
      = delay * real (attempt + 1) # map (\<lambda>i. delay * real (attempt + 1 + i + 1)) [0..<n']"
      by (simp add: upt_conv_Cons map_Suc_upt [symmetric] del: upt_Suc)
    have c: "call_result func s (Suc n') = call_result func s' n'"
      using f by (simp add: call_result_Suc)
    show ?thesis
      unfolding wrapper_loop.simps f using a d ih m f c Suc by simp
  qed
qed

text \<open>Claim C8.  Under a budget of \<open>max_attempts \<ge> 1\<close> attempts and a base delay
  \<open>delay \<ge> 0\<close>: when the first \<open>k < max_attempts\<close> calls fail and the next call
  returns, the wrapper returns that result after exactly \<open>k\<close> sleeps, the \<open>i\<close>-th of
  length \<open>delay * i\<close> (linear in the attempt number); when all \<open>max_attempts\<close> calls
  fail, the exception of the last call propagates, after \<open>max_attempts - 1\<close> sleeps; in
  particular two failures followed by a success under a budget of 3 give the successful
  result with exactly 2 sleeps.\<close>

theorem retry_linear_backoff:
  assumes "1 \<le> max_attempts" and "0 \<le> delay"
  shows "(\<forall>k v. int k < max_attempts \<and> (\<forall>i<k. isl (call_result func s i))
              \<and> call_result func s k = Inr v \<longrightarrow>
            retry max_attempts delay func s
              = (Return v, after_calls func (k + 1) s, backoff_sleeps delay k))
       \<and> ((\<forall>i < nat max_attempts. isl (call_result func s i)) \<longrightarrow>
            retry max_attempts delay func s
              = (Raise (projl (call_result func s (nat max_attempts - 1))),
                 after_calls func (nat max_attempts) s,
                 backoff_sleeps delay (nat max_attempts - 1)))
       \<and> (max_attempts = 3 \<and> isl (call_result func s 0) \<and> isl (call_result func s 1)
              \<and> call_result func s 2 = Inr v' \<longrightarrow>
            fst (retry max_attempts delay func s) = Return v'
          \<and> snd (snd (retry max_attempts delay func s)) = [delay * 1, delay * 2]
          \<and> length (snd (snd (retry max_attempts delay func s))) = 2)"
proof -
  have ok: "retry max_attempts delay func s
              = (Return v, after_calls func (k + 1) s, backoff_sleeps delay k)"
    if "int k < max_attempts" "\<forall>i<k. isl (call_result func s i)" "call_result func s k = Inr v"
    for k v
  proof -
    have "k < nat max_attempts" using that(1) by simp
    moreover have "int (0 + nat max_attempts) = max_attempts" using assms(1) by simp
    ultimately show ?thesis
      unfolding retry_def backoff_sleeps_def
      using wrapper_loop_success [OF that(2) that(3) _ _ assms(2), of "nat max_attempts" 0 max_attempts "[]"]
      by simp
  qed
  have bad: "retry max_attempts delay func s
              = (Raise (projl (call_result func s (nat max_attempts - 1))),
                 after_calls func (nat max_attempts) s,
                 backoff_sleeps delay (nat max_attempts - 1))"
    if "\<forall>i < nat max_attempts. isl (call_result func s i)"
  proof -
    have "0 < nat max_attempts" using assms(1) by simp
    moreover have "int (0 + nat max_attempts) = max_attempts" using assms(1) by simp
    ultimately show ?thesis
      unfolding retry_def backoff_sleeps_def
      using wrapper_loop_exhausted [OF that _ _ assms(2), of 0 max_attempts "[]"]
      by simp
  qed
  have third: "fst (retry max_attempts delay func s) = Return v'
          \<and> snd (snd (retry max_attempts delay func s)) = [delay * 1, delay * 2]
          \<and> length (snd (snd (retry max_attempts delay func s))) = 2"
    if "max_attempts = 3" "isl (call_result func s 0)" "isl (call_result func s 1)"
      "call_result func s 2 = Inr v'"
  proof -
    have "\<forall>i<2. isl (call_result func s i)"
      using that(2,3) by (auto simp: less_2_cases_iff)
    with that(1,4) have "retry max_attempts delay func s
              = (Return v', after_calls func (2 + 1) s, backoff_sleeps delay 2)"
      using ok [of 2 v'] by simp
    moreover have "backoff_sleeps delay 2 = [delay * 1, delay * 2]"
      by (simp add: backoff_sleeps_def numeral_2_eq_2)
    ultimately show ?thesis by simp
  qed
  from ok bad third show ?thesis by blast
qed

text \<open>Claim C8 at two concrete functions under \<open>retry(max_attempts=3, delay=2.0)\<close>:
  one that fails twice and then returns, one that always fails.\<close>

theorem retry_linear_backoff_witness:
  "(1::int) \<le> 3 \<and> (0::real) \<le> 2
   \<and> isl (call_result flaky 0 0) \<and> isl (call_result flaky 0 1)
   \<and> call_result flaky 0 2 = Inr ''page''
   \<and> retry 3 2 flaky 0 = (Return ''page'', 3, [2, 4])
   \<and> isl (call_result broken 0 0) \<and> isl (call_result broken 0 1)
   \<and> isl (call_result broken 0 2)
   \<and> retry 3 2 broken 0 = (Raise 2, 3, [2, 4])"
proof -
  have h1: "(1::int) \<le> 3" and h2: "(0::real) \<le> 2" by simp_all
  have c0: "isl (call_result flaky 0 0)" and c1: "isl (call_result flaky 0 1)"
    and c2: "call_result flaky 0 2 = Inr ''page''"
    by (simp_all add: call_result_def flaky_def numeral_2_eq_2)
  have c: "\<forall>i<2. isl (call_result flaky 0 i)"
    using c0 c1 by (auto simp: less_2_cases_iff)
  have b: "\<forall>i < nat 3. isl (call_result broken 0 i)"
    by (simp add: call_result_def broken_def)
  have bl: "call_result broken 0 (nat 3 - 1) = Inl 2"
    by (simp add: call_result_def broken_def numeral_2_eq_2)
  have a3: "after_calls flaky (2 + 1) 0 = 3" "after_calls broken (nat 3) 0 = 3"
    by (simp_all add: flaky_def broken_def numeral_2_eq_2 numeral_3_eq_3)
  have s2: "backoff_sleeps 2 2 = [2, 4]" "backoff_sleeps 2 (nat 3 - 1) = [2, 4]"
    by (simp_all add: backoff_sleeps_def numeral_2_eq_2)
  from retry_linear_backoff [OF h1 h2, of flaky 0 "''page''"]
  have "\<forall>k v. int k < 3 \<and> (\<forall>i<k. isl (call_result flaky 0 i))
              \<and> call_result flaky 0 k = Inr v \<longrightarrow>
            retry 3 2 flaky 0 = (Return v, after_calls flaky (k + 1) 0, backoff_sleeps 2 k)"
    by (rule conjunct1)
  then have "int 2 < 3 \<and> (\<forall>i<2. isl (call_result flaky 0 i))
              \<and> call_result flaky 0 2 = Inr ''page'' \<longrightarrow>
            retry 3 2 flaky 0
              = (Return ''page'', after_calls flaky (2 + 1) 0, backoff_sleeps 2 2)"
    by blast
  with c c2
  have "retry 3 2 flaky 0 = (Return ''page'', after_calls flaky (2 + 1) 0, backoff_sleeps 2 2)"
    by simp
  moreover from retry_linear_backoff [OF h1 h2, of broken 0] b
  have "retry 3 2 broken 0 = (Raise (projl (call_result broken 0 (nat 3 - 1))),
          after_calls broken (nat 3) 0, backoff_sleeps 2 (nat 3 - 1))"
    by blast
  ultimately show ?thesis
    using h1 h2 c0 c1 c2 b bl a3 s2 by simp
qed

section \<open>Properties of the review extraction\<close>

lemma truthy_str_populated: "truthy_str x \<longleftrightarrow> populated x"
  by (cases x) (simp_all add: populated_def)

lemma single_review_present:
  "extract_single_clutch_review readers d c r rating = Some reviewer \<Longrightarrow>
   reviewer_present reviewer"
  unfolding extract_single_clutch_review_def reviewer_present_def Let_def
  by (auto simp: truthy_str_populated split: sum.splits prod.splits if_splits)

lemma review_step_present:
  "\<forall>r \<in> set found. reviewer_present r \<Longrightarrow>
   \<forall>r \<in> set (review_step readers ds cs rs ratings found i). reviewer_present r"
  unfolding review_step_def Let_def
  by (auto split: option.splits dest: single_review_present)

lemma foldl_review_step_present:
  "\<forall>r \<in> set found. reviewer_present r \<Longrightarrow>
   \<forall>r \<in> set (foldl (review_step readers ds cs rs ratings) found is). reviewer_present r"
proof (induction "is" arbitrary: found)
  case Nil
  then show ?case by simp
next
  case (Cons i "is")
  from Cons.prems have "\<forall>r \<in> set (review_step readers ds cs rs ratings found i). reviewer_present r"
    by (rule review_step_present)
  then show ?case using Cons.IH by simp
qed

text \<open>Claim C6.  Every reviewer in the list returned by the review extraction has its
  name, its company, the service of its project or the score of its project populated;
  and whenever the four fields read for one review are all empty, the single-review
  extractor returns no result.\<close>

theorem extracted_reviews_present:
  "(\<forall>reviewer \<in> set (extract_reviews self readers ds cs rs ratings).
       reviewer_present reviewer)
   \<and> (\<forall>d c r rating reviewer0 project0.
         review_fields readers d c r rating = Inr (reviewer0, project0)
         \<and> \<not> populated (ReviewerInfo.name reviewer0) \<and> \<not> populated (company reviewer0)
         \<and> \<not> populated (service_provided project0) \<and> score project0 = None
         \<longrightarrow> extract_single_clutch_review readers d c r rating = None)"
proof -
  have "\<forall>reviewer \<in> set (extract_reviews self readers ds cs rs ratings).
       reviewer_present reviewer"
    unfolding extract_reviews_def Let_def
    by (rule foldl_review_step_present) simp
  moreover have "extract_single_clutch_review readers d c r rating = None"
    if "review_fields readers d c r rating = Inr (reviewer0, project0)"
      "\<not> populated (ReviewerInfo.name reviewer0)" "\<not> populated (company reviewer0)"
      "\<not> populated (service_provided project0)" "score project0 = None"
    for d c r rating reviewer0 project0
    using that by (simp add: extract_single_clutch_review_def truthy_str_populated)
  ultimately show ?thesis by blast
qed

text \<open>Claim C6 at a page with two reviews, the first of which yields no field.\<close>

theorem extracted_reviews_present_witness:
  "extract_reviews default_scraper sample_readers [0, 1] [0, 1] [0, 1] []
     = [ann\<lparr>project := Some ProjectInfo_default\<rparr>]
   \<and> reviewer_present (ann\<lparr>project := Some ProjectInfo_default\<rparr>)
   \<and> review_fields sample_readers 0 0 0 None = Inr (ReviewerInfo_default, ProjectInfo_default)
   \<and> extract_single_clutch_review sample_readers 0 0 0 None = None"
proof -
  have e: "extract_reviews default_scraper sample_readers [0, 1] [0, 1] [0, 1] []
     = [ann\<lparr>project := Some ProjectInfo_default\<rparr>]"
    by code_simp
  have s: "review_fields sample_readers 0 0 0 None = Inr (ReviewerInfo_default, ProjectInfo_default)"
    by (simp add: review_fields_def sample_readers_def)
  have p: "\<not> populated (ReviewerInfo.name ReviewerInfo_default)"
    "\<not> populated (company ReviewerInfo_default)"
    "\<not> populated (service_provided ProjectInfo_default)" "score ProjectInfo_default = None"
    by (simp_all add: populated_def ReviewerInfo_default_def ProjectInfo_default_def)
  note t = extracted_reviews_present [of default_scraper sample_readers "[0, 1]" "[0, 1]" "[0, 1]" "[]"]
  from t have "reviewer_present (ann\<lparr>project := Some ProjectInfo_default\<rparr>)"
    unfolding e by simp
  moreover from t s p have "extract_single_clutch_review sample_readers 0 0 0 None = None"
    by blast
  ultimately show ?thesis using e s by simp
qed

section \<open>Properties of the matcher\<close>

lemma re_search_groups_len:
  "re_search r s = Some m \<Longrightarrow> match_groups_len m = ngroups r"
proof (induction s)
  case Nil
  then show ?case by (subst (asm) re_search.simps) (auto split: list.splits)
next
  case (Cons c cs)
  from Cons.prems show ?case
    by (subst (asm) re_search.simps) (auto split: list.splits dest: Cons.IH)
qed

lemma match_group_in_range:
  "k \<le> match_groups_len m \<Longrightarrow> \<exists>v. match_group m k = Inr v"
  by (cases m) auto

lemma employee_loop_total:
  "\<forall>p \<in> set ps. 1 \<le> ngroups p \<Longrightarrow> \<exists>v. employee_loop ps t = Inr v"
proof (induction ps)
  case Nil
  then show ?case by simp
next
  case (Cons p ps)
  show ?case
  proof (cases "re_search p t")
    case None
    with Cons show ?thesis by simp
  next
    case (Some m)
    then have n: "match_groups_len m = ngroups p" by (rule re_search_groups_len)
    with Cons.prems have "1 \<le> match_groups_len m" by simp
    then obtain g1 where g1: "match_group m 1 = Inr g1" using match_group_in_range by blast
    show ?thesis
    proof (cases "match_groups_len m = 2")
      case True
      then obtain g2 where "match_group m 2 = Inr g2" using match_group_in_range [of 2 m] by auto
      with True g1 Some show ?thesis by simp
    next
      case False
      with g1 Some show ?thesis by simp
    qed
  qed
qed

lemma ngroups_employee_patterns: "\<forall>p \<in> set employee_patterns. 1 \<le> ngroups p"
  by (simp add: employee_patterns_def employees_range_def employees_plus_def people_range_def
      people_plus_def seq_def str_def many1_def opt_def lit_def digit_def space_def)

lemma parse_employee_count_total: "\<exists>v. parse_employee_count text = Inr v"
  using employee_loop_total [OF ngroups_employee_patterns]
  by (simp add: parse_employee_count_def)

lemma re_search_Some:
  "re_search r s = Some (Match whole g n) \<Longrightarrow>
   n = ngroups r \<and> (\<exists>s' w. w \<in> set (ms r s' []) \<and> g = snd w)"
proof (induction s)
  case Nil
  from Nil obtain w ws where "ms r [] [] = w # ws" "g = snd w" "n = ngroups r"
    by (subst (asm) re_search.simps) (auto split: list.splits)
  then have "w \<in> set (ms r [] [])" by simp
  with \<open>g = snd w\<close> \<open>n = ngroups r\<close> show ?case by blast
next
  case (Cons c cs)
  show ?case
  proof (cases "ms r (c # cs) []")
    case Nil
    with Cons.prems have "re_search r cs = Some (Match whole g n)"
      by (subst (asm) re_search.simps) simp
    then show ?thesis by (rule Cons.IH)
  next
    case (Cons w ws)
    with Cons.prems have "g = snd w" "n = ngroups r"
      by (subst (asm) re_search.simps, simp)+
    moreover from Cons have "w \<in> set (ms r (c # cs) [])" by simp
    ultimately show ?thesis by blast
  qed
qed











lemma ngroups_str [simp]: "ngroups (str s) = 0"
  by (induction s) (simp_all add: str_def seq_def lit_def)

lemma ngroups_basic [simp]:
  "ngroups space = 0" "ngroups digit = 0" "ngroups (lit c) = 0"
  "ngroups (opt r) = ngroups r" "ngroups (many1 r) = 2 * ngroups r"
  by (simp_all add: space_def digit_def lit_def opt_def many1_def)






section \<open>Properties of the normalizer\<close>















subsection \<open>Recognition of the canonical forms\<close>






















lemma digit_cases:
  "is_digit c \<longleftrightarrow> c \<in> set ''0123456789''"
  by (simp add: is_digit_def)
























lemma strip_all_space: "list_all is_space s \<Longrightarrow> strip s = []"
proof -
  assume "list_all is_space s"
  then have "dropWhile is_space s = []" by (induction s) simp_all
  then show ?thesis unfolding strip_def by (simp only: rev.simps dropWhile.simps)
qed

lemma clean_text_not_empty: "clean_text x \<noteq> Some []"
  by (simp add: clean_text_def Let_def)

lemma clean_text_blank: "list_all is_space s \<Longrightarrow> clean_text (Some s) = None"
  by (simp add: clean_text_def strip_all_space)

lemma first_group_captured:
  assumes "re_search (Grp 1 a) s = Some m"
  shows "\<exists>t. match_group m 1 = Inr (Some t)"
proof -
  obtain whole g n where m: "m = Match whole g n" by (cases m)
  from re_search_Some [OF assms [unfolded m]] obtain s' w
    where n: "n = ngroups (Grp 1 a)" and w: "w \<in> set (ms (Grp 1 a) s' [])" "g = snd w" by blast
  from w obtain t g' where "g = (1, t) # g'" by auto
  with m n show ?thesis by simp
qed

lemma extract_number_total: "\<exists>v. extract_number_from_text float text = Inr v"
proof (cases "re_search number_pattern (or_empty text)")
  case None
  then show ?thesis by (simp add: extract_number_from_text_def)
next
  case (Some m)
  then obtain t where "match_group m 1 = Inr (Some t)"
    unfolding number_pattern_def using first_group_captured by blast
  with Some show ?thesis
    by (cases "float t") (simp_all add: extract_number_from_text_def)
qed

lemma extract_number_value_error:
  "\<forall>s. float s = None \<Longrightarrow> extract_number_from_text float text = Inr None"
  using extract_number_total [of float "text"]
  by (auto simp: extract_number_from_text_def split: option.splits sum.splits if_splits)

lemma ngroups_month_year [simp]: "ngroups month_year = 0"
  by (simp add: month_year_def seq_def many1_def)

lemma parse_date_range_total: "\<exists>a b. parse_date_range text = Inr (a, b)"
proof -
  have two: "\<exists>a b. match_group m 1 = Inr a \<and> match_group m 2 = Inr b"
    if "re_search date_pattern s = Some m" for s m
  proof -
    from re_search_groups_len [OF that] have "match_groups_len m = 2"
      by (simp add: date_pattern_def seq_def)
    then show ?thesis using match_group_in_range [of 1 m] match_group_in_range [of 2 m] by auto
  qed
  have one: "\<exists>a. match_group m 1 = Inr a"
    if "re_search single_date_pattern s = Some m" for s m
  proof -
    from re_search_groups_len [OF that] have "match_groups_len m = 1"
      by (simp add: single_date_pattern_def)
    then show ?thesis using match_group_in_range [of 1 m] by auto
  qed
  show ?thesis
  proof (cases "re_search date_pattern (or_empty text)")
    case (Some m)
    with two [OF Some] show ?thesis by (auto simp: parse_date_range_def)
  next
    case None
    show ?thesis
    proof (cases "re_search single_date_pattern (or_empty text)")
      case (Some m)
      with one [OF Some] None show ?thesis by (auto simp: parse_date_range_def)
    next
      case None
      with \<open>re_search date_pattern (or_empty text) = None\<close> show ?thesis
        by (simp add: parse_date_range_def)
    qed
  qed
qed

lemma parse_project_size_total: "\<exists>v. parse_project_size text = Inr v"
proof (cases "re_search money_pattern (strip (or_empty text))")
  case None
  then show ?thesis by (simp add: parse_project_size_def)
next
  case (Some m)
  then show ?thesis by (cases m) (simp add: parse_project_size_def)
qed

text \<open>Claim C9.  The five operations of the normalizer return a value on every input
  and never raise: \<open>clean_text\<close> gives the absent sentinel for an absent, empty or blank
  text and never an empty string; \<open>extract_number_from_text\<close> returns a value whatever
  \<open>float\<close> does, and the absent sentinel when \<open>float\<close> rejects the text; a group of a
  match is never read out of range in \<open>parse_employee_count\<close>, \<open>parse_date_range\<close>
  and \<open>parse_project_size\<close>; and each operation maps an absent or empty text to the
  absent sentinel.\<close>

theorem normalizer_never_raises:
  "clean_text None = None \<and> clean_text (Some []) = None
   \<and> (list_all is_space s \<longrightarrow> clean_text (Some s) = None)
   \<and> clean_text text \<noteq> Some []
   \<and> (\<exists>v. extract_number_from_text float text = Inr v)
   \<and> extract_number_from_text float None = Inr None
   \<and> extract_number_from_text float (Some []) = Inr None
   \<and> ((\<forall>t. float t = None) \<longrightarrow> extract_number_from_text float text = Inr None)
   \<and> (\<exists>v. parse_employee_count text = Inr v)
   \<and> parse_employee_count None = Inr None \<and> parse_employee_count (Some []) = Inr None
   \<and> (\<exists>a b. parse_date_range text = Inr (a, b))
   \<and> parse_date_range None = Inr (None, None) \<and> parse_date_range (Some []) = Inr (None, None)
   \<and> (\<exists>v. parse_project_size text = Inr v)
   \<and> parse_project_size None = Inr None \<and> parse_project_size (Some []) = Inr None"
proof -
  have "clean_text None = None" "clean_text (Some []) = None"
    by (simp_all add: clean_text_def)
  moreover have "extract_number_from_text float None = Inr None"
    "extract_number_from_text float (Some []) = Inr None"
    by (simp_all add: extract_number_from_text_def)
  moreover have "parse_employee_count None = Inr None" "parse_employee_count (Some []) = Inr None"
    by (simp_all add: parse_employee_count_def)
  moreover have "parse_date_range None = Inr (None, None)"
    "parse_date_range (Some []) = Inr (None, None)"
    by (simp_all add: parse_date_range_def)
  moreover have "parse_project_size None = Inr None" "parse_project_size (Some []) = Inr None"
    by (simp_all add: parse_project_size_def)
  moreover note clean_text_blank [of s] clean_text_not_empty [of "text"]
    extract_number_total [of float "text"] extract_number_value_error [of float "text"]
    parse_employee_count_total [of "text"] parse_date_range_total [of "text"]
    parse_project_size_total [of "text"]
  ultimately show ?thesis by blast
qed

text \<open>Claim C9 at a blank text and at a \<open>float\<close> that rejects every text, with
  some values of the operations on well-formed and on malformed texts.\<close>

theorem normalizer_never_raises_witness:
  "list_all is_space ''   '' \<and> clean_text (Some ''   '') = None
   \<and> (\<forall>t. (\<lambda>t. None :: real option) t = None)
   \<and> extract_number_from_text (\<lambda>t. None) (Some ''4.8 stars'') = Inr None
   \<and> extract_number_from_text digits_float (Some ''4.8 stars'') = Inr None
   \<and> extract_number_from_text digits_float (Some ''about 48 stars'') = Inr (Some 48)
   \<and> parse_date_range (Some ''Jan 2023 - Jun 2023'') = Inr (Some ''Jan 2023'', Some ''Jun 2023'')
   \<and> parse_date_range (Some ''no dates here'') = Inr (None, None)
   \<and> parse_project_size (Some ''$50,000 - $100,000'') = Inr (Some ''$50,000 - $100,000'')"
proof -
  have a: "list_all is_space ''   ''" by code_simp
  have b: "\<forall>t. (\<lambda>t. None :: real option) t = None" by simp
  note t = normalizer_never_raises [of "''   ''" "Some ''4.8 stars''" "\<lambda>t. None"]
  from t a have 1: "clean_text (Some ''   '') = None" by blast
  from t b have 2: "extract_number_from_text (\<lambda>t. None) (Some ''4.8 stars'') = Inr None"
    by blast
  have 3: "extract_number_from_text digits_float (Some ''4.8 stars'') = Inr None"
    by code_simp
  have 4: "extract_number_from_text digits_float (Some ''about 48 stars'') = Inr (Some 48)"
    by code_simp
  have 5: "parse_date_range (Some ''Jan 2023 - Jun 2023'') = Inr (Some ''Jan 2023'', Some ''Jun 2023'')"
    by code_simp
  have 6: "parse_date_range (Some ''no dates here'') = Inr (None, None)"
    by code_simp
  have 7: "parse_project_size (Some ''$50,000 - $100,000'') = Inr (Some ''$50,000 - $100,000'')"
    by code_simp
  show ?thesis
    by (intro conjI) (fact a 1 b 2 3 4 5 6 7)+
qed

section \<open>Properties of the basic info extraction\<close>






end
